theory Spec2Isabelle
  imports Complex_Main "HOL-Library.Product_Lexorder" "HOL-Library.Multiset"
begin

section \<open>Nigeria inflation forecast dashboard (app.py)\<close>

text \<open>
  The program is one Python script: it fetches a World Bank series over HTTP, optionally
  appends a row for the current month, hands the series to Prophet and shows the last rows
  of the forecast, which it also offers as a CSV download.

  The script's own code is embedded as HOL functions. The library calls it makes are
  embedded by what they are documented to do (\<^verbatim>\<open>DataFrame.sort_values\<close>,
  \<^verbatim>\<open>DataFrame.tail\<close>, \<^verbatim>\<open>pd.concat\<close>,
  \<^verbatim>\<open>Prophet.make_future_dataframe\<close> with \<^verbatim>\<open>freq='M'\<close>), and what
  a library computes from the numbers or from text (\<^verbatim>\<open>pd.to_datetime\<close>,
  \<^verbatim>\<open>Prophet.fit\<close>, \<^verbatim>\<open>Prophet.predict\<close>, the rendering of a cell by
  \<^verbatim>\<open>to_csv\<close>, numpy's test of a \<^verbatim>\<open>datetime\<close> against the values of a
  column) is a parameter of the embedding. Python floats are only copied by
  the script, never computed with, so they are carried as \<^typ>\<open>real\<close>. A data frame is
  its list of rows in positional order; index labels are not modelled, no statement below
  reads them. Widget labels and captions are not modelled either.
\<close>

subsection \<open>Timestamps and the calendar\<close>

text \<open>
  A \<^verbatim>\<open>datetime\<close> has a date and a time of day. \<^verbatim>\<open>datetime.today()\<close> returns
  both, and \<^verbatim>\<open>.replace(day=1)\<close> changes the day only.
\<close>

record datetime =
  year :: int
  month :: nat
  day :: nat
  hour :: nat
  minute :: nat
  second :: nat
  microsecond :: nat

text \<open>Timestamps compare field by field, the year first.\<close>

definition dt_key :: "datetime \<Rightarrow> int \<times> nat \<times> nat \<times> nat \<times> nat \<times> nat \<times> nat" where
  "dt_key t = (year t, month t, day t, hour t, minute t, second t, microsecond t)"

definition is_leap :: "int \<Rightarrow> bool" where
  "is_leap y = (if y mod 4 = 0 then (if y mod 100 = 0 then y mod 400 = 0 else True) else False)"

definition days_in_month :: "int \<Rightarrow> nat \<Rightarrow> nat" where
  "days_in_month y m =
     (if m = 2 then (if is_leap y then 29 else 28)
      else if m = 4 \<or> m = 6 \<or> m = 9 \<or> m = 11 then 30
      else 31)"

text \<open>A record that is a date of the calendar.\<close>

definition valid_date :: "datetime \<Rightarrow> bool" where
  "valid_date t = (1 \<le> month t \<and> month t \<le> 12 \<and> 1 \<le> day t \<and> day t \<le> days_in_month (year t) (month t))"

definition is_month_end :: "datetime \<Rightarrow> bool" where
  "is_month_end t = (day t = days_in_month (year t) (month t))"

text \<open>Months counted from year 0, so that consecutive months have consecutive numbers.\<close>

definition month_index :: "datetime \<Rightarrow> int" where
  "month_index t = year t * 12 + int (month t) - 1"

subsection \<open>JSON values and Python's exceptions\<close>

datatype json =
    JNull
  | JBool bool
  | JNum real
  | JStr string
  | JArr "json list"
  | JObj "(string \<times> json) list"

datatype error =
    RequestException
  | JSONDecodeError
  | IndexError
  | KeyError
  | TypeError
  | ValueError

text \<open>
  What \<^verbatim>\<open>requests.get(url)\<close> and \<^verbatim>\<open>response.json()\<close> can do: the request
  raises, or there is a response, whose body is JSON or is not. The script never reads the
  status code.
\<close>

datatype http_result = Failed | Body "json option"

text \<open>A JSON object decoded to a \<^verbatim>\<open>dict\<close>: of a key written twice the last one stands.\<close>

definition dict_get :: "(string \<times> json) list \<Rightarrow> string \<Rightarrow> json option" where
  "dict_get kvs k = map_of (rev kvs) k"

text \<open>\<^verbatim>\<open>d[k]\<close> for a string key \<open>k\<close>.\<close>

definition getitem :: "json \<Rightarrow> string \<Rightarrow> error + json" where
  "getitem d k =
     (case d of
        JObj kvs \<Rightarrow> (case dict_get kvs k of None \<Rightarrow> Inl KeyError | Some v \<Rightarrow> Inr v)
      | _ \<Rightarrow> Inl TypeError)"

text \<open>\<^verbatim>\<open>response.json()[1]\<close>.\<close>

definition second_element :: "json \<Rightarrow> error + json" where
  "second_element j =
     (case j of
        JArr xs \<Rightarrow> (if 2 \<le> length xs then Inr (xs ! 1) else Inl IndexError)
      | JStr s \<Rightarrow> (if 2 \<le> length s then Inr (JStr [s ! 1]) else Inl IndexError)
      | JObj kvs \<Rightarrow> Inl KeyError
      | _ \<Rightarrow> Inl TypeError)"

text \<open>\<^verbatim>\<open>for d in json_data\<close>: a list gives its elements, a dict its keys, a string its characters.\<close>

definition iterate :: "json \<Rightarrow> error + json list" where
  "iterate j =
     (case j of
        JArr xs \<Rightarrow> Inr xs
      | JObj kvs \<Rightarrow> Inr (map JStr (remdups (map fst kvs)))
      | JStr s \<Rightarrow> Inr (map (\<lambda>c. JStr [c]) s)
      | _ \<Rightarrow> Inl TypeError)"

subsection \<open>Data acquisition\<close>

text \<open>
  A row of the observation series. \<open>Date\<close> is what \<^verbatim>\<open>pd.to_datetime\<close> returned,
  \<open>None\<close> for a null date (\<^verbatim>\<open>NaT\<close>); \<open>Inflation\<close> is the JSON value copied
  from the record.
\<close>

record obs =
  Date :: "datetime option"
  Inflation :: json

text \<open>
  The list comprehension of \<^verbatim>\<open>get_world_bank_inflation\<close>. For each record the
  filter \<^verbatim>\<open>d['value'] is not None\<close> runs first; only a record that passes it has its
  \<^verbatim>\<open>d['date']\<close> read and parsed. The first exception ends the loop.
  \<open>to_datetime\<close> is \<^verbatim>\<open>pd.to_datetime\<close>: it raises, or returns a timestamp or a
  null.
\<close>

fun comprehension :: "(json \<Rightarrow> error + datetime option) \<Rightarrow> json list \<Rightarrow> error + obs list" where
  "comprehension to_datetime [] = Inr []"
| "comprehension to_datetime (d # ds) =
     (case getitem d ''value'' of
        Inl e \<Rightarrow> Inl e
      | Inr v \<Rightarrow>
          if v \<noteq> JNull then
            (case getitem d ''date'' of
               Inl e \<Rightarrow> Inl e
             | Inr s \<Rightarrow>
                 (case to_datetime s of
                    Inl e \<Rightarrow> Inl e
                  | Inr t \<Rightarrow>
                      (case comprehension to_datetime ds of
                         Inl e \<Rightarrow> Inl e
                       | Inr rs \<Rightarrow> Inr (\<lparr>Date = t, Inflation = v\<rparr> # rs))))
          else comprehension to_datetime ds)"

text \<open>
  \<^verbatim>\<open>data.sort_values("Date")\<close>. A frame built from an empty list has no column
  \<^verbatim>\<open>Date\<close>, and sorting it raises \<^verbatim>\<open>KeyError\<close>. Otherwise the rows with a
  date come first, in ascending order, and the rows with a null date last. pandas does not
  promise an order among rows of equal date; the insertion sort used here keeps theirs, and
  no statement below depends on that order.
\<close>

definition sort_values :: "obs list \<Rightarrow> error + obs list" where
  "sort_values df =
     (if df = [] then Inl KeyError
      else Inr (sort_key (\<lambda>r. dt_key (the (Date r))) (filter (\<lambda>r. Date r \<noteq> None) df)
                @ filter (\<lambda>r. Date r = None) df))"

definition get_world_bank_inflation ::
  "(json \<Rightarrow> error + datetime option) \<Rightarrow> http_result \<Rightarrow> error + obs list" where
  "get_world_bank_inflation to_datetime response =
     (case response of
        Failed \<Rightarrow> Inl RequestException
      | Body None \<Rightarrow> Inl JSONDecodeError
      | Body (Some j) \<Rightarrow>
          (case second_element j of
             Inl e \<Rightarrow> Inl e
           | Inr json_data \<Rightarrow>
               (case iterate json_data of
                  Inl e \<Rightarrow> Inl e
                | Inr ds \<Rightarrow>
                    (case comprehension to_datetime ds of
                       Inl e \<Rightarrow> Inl e
                     | Inr df \<Rightarrow> sort_values df))))"

subsection \<open>Interactive input\<close>

text \<open>
  Lines 52 to 57 of the script. \<open>now\<close> is what \<^verbatim>\<open>datetime.today()\<close> returned;
  \<^verbatim>\<open>.replace(day=1)\<close> sets the day and keeps the time of day.
  \<^verbatim>\<open>today in data['Date'].values\<close> is numpy's test of a Python
  \<^verbatim>\<open>datetime\<close> against the \<^verbatim>\<open>datetime64\<close> values of the column. What
  it answers is the library's, so the test is the parameter \<open>contains\<close>: with the
  nanosecond values that pandas 2 stores, numpy finds no value equal to a
  \<^verbatim>\<open>datetime\<close>, also when the same timestamp is in the column.
  \<^verbatim>\<open>pd.concat([data, new_row], ignore_index=True)\<close> puts the new row after the rows
  of \<open>data\<close>.
\<close>

definition current_month_augmentation ::
  "(datetime \<Rightarrow> datetime option list \<Rightarrow> bool) \<Rightarrow> bool \<Rightarrow> real \<Rightarrow> datetime \<Rightarrow> obs list \<Rightarrow> obs list" where
  "current_month_augmentation contains checkbox current_inflation now data =
     (if checkbox then
        (let today = now\<lparr>day := 1\<rparr> in
         if \<not> contains today (map Date data)
         then data @ [\<lparr>Date = Some today, Inflation = JNum current_inflation\<rparr>]
         else data)
      else data)"

subsection \<open>Forecast engine\<close>

text \<open>
  \<^verbatim>\<open>pd.date_range(start, periods, freq='M')\<close>: month ends, the time of day of
  \<open>start\<close> kept. A start that is not on a month end is rolled forward to the end of its
  month; each further date is the end of the next month. Years are not bounded here; pandas
  raises for a date after 11 April 2262.
\<close>

definition rollforward :: "datetime \<Rightarrow> datetime" where
  "rollforward t = t\<lparr>day := days_in_month (year t) (month t)\<rparr>"

definition next_month_end :: "datetime \<Rightarrow> datetime" where
  "next_month_end t =
     (if month t = 12 then t\<lparr>year := year t + 1, month := 1, day := 31\<rparr>
      else t\<lparr>month := month t + 1, day := days_in_month (year t) (month t + 1)\<rparr>)"

fun month_ends :: "datetime \<Rightarrow> nat \<Rightarrow> datetime list" where
  "month_ends t 0 = []"
| "month_ends t (Suc n) = t # month_ends (next_month_end t) n"

definition date_range :: "datetime \<Rightarrow> nat \<Rightarrow> datetime list" where
  "date_range start periods = month_ends (rollforward start) periods"

text \<open>
  Prophet keeps the dates it was fitted on, unique and sorted
  (\<^verbatim>\<open>history_dates\<close>), and \<^verbatim>\<open>make_future_dataframe\<close> appends to them the
  first \<open>periods\<close> dates of the range that lie after the latest of them.
\<close>

definition history_dates :: "obs list \<Rightarrow> datetime list" where
  "history_dates df = sort_key dt_key (remdups (map (\<lambda>r. the (Date r)) df))"

fun max_date :: "datetime \<Rightarrow> datetime list \<Rightarrow> datetime" where
  "max_date m [] = m"
| "max_date m (d # ds) = max_date (if dt_key m < dt_key d then d else m) ds"

definition make_future_dataframe :: "datetime list \<Rightarrow> nat \<Rightarrow> error + datetime list" where
  "make_future_dataframe hist periods =
     (case hist of
        [] \<Rightarrow> Inl ValueError
      | h # hs \<Rightarrow>
          (let last_date = max_date h hs;
               dates = date_range last_date (periods + 1);
               dates = filter (\<lambda>d. dt_key last_date < dt_key d) dates;
               dates = take periods dates
           in Inr (hist @ dates)))"

text \<open>
  What Prophet computes from the numbers is a parameter: \<open>fit\<close> raises or returns a
  fitted model, \<open>predict\<close> gives the point estimate and its interval for a date. Of the
  columns of the forecast only those the script reads are kept.
\<close>

record prediction =
  yhat :: real
  yhat_lower :: real
  yhat_upper :: real

record forecast_row = prediction +
  ds :: datetime

record 'm prophet =
  fit :: "obs list \<Rightarrow> error + 'm"
  predict :: "'m \<Rightarrow> datetime \<Rightarrow> prediction"

text \<open>The row of the forecast for the date \<open>d\<close>.\<close>

definition forecast_of :: "'m prophet \<Rightarrow> 'm \<Rightarrow> datetime \<Rightarrow> forecast_row" where
  "forecast_of P model d =
     \<lparr>yhat = yhat (predict P model d),
      yhat_lower = yhat_lower (predict P model d),
      yhat_upper = yhat_upper (predict P model d),
      ds = d\<rparr>"

text \<open>
  \<^verbatim>\<open>forecast_inflation(df, periods)\<close>. The renaming of the columns to \<open>ds\<close> and
  \<open>y\<close> changes no row. Prophet refuses a null date (\<^verbatim>\<open>Found NaN in column ds\<close>).
  \<^verbatim>\<open>predict\<close> returns one row for each row of \<open>future\<close>, in its order.
\<close>

definition forecast_inflation :: "'m prophet \<Rightarrow> obs list \<Rightarrow> nat \<Rightarrow> error + forecast_row list" where
  "forecast_inflation P df periods =
     (if None \<in> set (map Date df) then Inl ValueError
      else
        (case fit P df of
           Inl e \<Rightarrow> Inl e
         | Inr model \<Rightarrow>
             (case make_future_dataframe (history_dates df) periods of
                Inl e \<Rightarrow> Inl e
              | Inr future \<Rightarrow> Inr (map (forecast_of P model) future))))"

subsection \<open>Presentation\<close>

text \<open>\<^verbatim>\<open>df.tail(n)\<close>: the last \<open>n\<close> rows, all of them when there are fewer.\<close>

definition tail :: "nat \<Rightarrow> 'a list \<Rightarrow> 'a list" where
  "tail n xs = drop (length xs - n) xs"

text \<open>The displayed table is a frame with named columns.\<close>

datatype cell = Timestamp datetime | Float real

record frame =
  columns :: "string list"
  rows :: "cell list list"

text \<open>\<^verbatim>\<open>forecast[['ds', 'yhat', 'yhat_lower', 'yhat_upper']]\<close>.\<close>

definition select_columns :: "forecast_row list \<Rightarrow> frame" where
  "select_columns forecast =
     \<lparr>columns = [''ds'', ''yhat'', ''yhat_lower'', ''yhat_upper''],
      rows = map (\<lambda>r. [Timestamp (ds r), Float (yhat r), Float (yhat_lower r), Float (yhat_upper r)])
               forecast\<rparr>"

text \<open>\<^verbatim>\<open>df.rename(columns=mapping)\<close>: a column the mapping does not name keeps its name.\<close>

definition rename :: "(string \<times> string) list \<Rightarrow> frame \<Rightarrow> frame" where
  "rename mapping df =
     df\<lparr>columns := map (\<lambda>c. case map_of mapping c of None \<Rightarrow> c | Some c' \<Rightarrow> c') (columns df)\<rparr>"

definition forecast_display :: "forecast_row list \<Rightarrow> nat \<Rightarrow> frame" where
  "forecast_display forecast forecast_period =
     rename [(''ds'', ''Date''), (''yhat'', ''Forecast''),
             (''yhat_lower'', ''Lower Bound''), (''yhat_upper'', ''Upper Bound'')]
       ((select_columns forecast)\<lparr>rows := tail forecast_period (rows (select_columns forecast))\<rparr>)"

text \<open>
  \<^verbatim>\<open>df.to_csv(index=False)\<close>, as the records of the file: the header record holds the
  column names, then one record for each row, and no record has a field for the index.
  How pandas writes a timestamp or a float is the parameter \<open>fmt\<close>. The joining of the
  fields with commas is not modelled.
\<close>

definition to_csv :: "(cell \<Rightarrow> string) \<Rightarrow> frame \<Rightarrow> string list list" where
  "to_csv fmt df = columns df # map (map fmt) (rows df)"

record download_button =
  button_data :: "string list list"
  file_name :: string
  mime :: string

subsection \<open>The script\<close>

text \<open>
  One run of the script, top to bottom. The widgets' states and the clock are its inputs;
  the parser, numpy's membership test, Prophet and the cell formatter are its parameters.
  It returns the elements put on the page, in order, and the exception that ended the
  run, if one did; the script has no \<^verbatim>\<open>try\<close>. The cache around
  \<^verbatim>\<open>get_world_bank_inflation\<close> is not modelled: a run calls it once.
\<close>

record session =
  response :: http_result
  forecast_period :: nat
  checkbox :: bool
  current_inflation :: real
  clock :: datetime

datatype element =
    PageConfig
  | Title
  | RawData "obs list"
  | Slider
  | Checkbox
  | NumberInput
  | Chart "obs list" "forecast_row list"
  | ForecastTable frame
  | DownloadButton download_button

definition script ::
  "(json \<Rightarrow> error + datetime option) \<Rightarrow> (datetime \<Rightarrow> datetime option list \<Rightarrow> bool) \<Rightarrow> 'm prophet
     \<Rightarrow> (cell \<Rightarrow> string) \<Rightarrow> session \<Rightarrow> element list \<times> error option" where
  "script to_datetime contains P fmt s =
     (let page = [PageConfig, Title] in
      case get_world_bank_inflation to_datetime (response s) of
        Inl e \<Rightarrow> (page, Some e)
      | Inr data \<Rightarrow>
          (let page = page @ [RawData (tail 12 data), Slider, Checkbox];
               page = (if checkbox s then page @ [NumberInput] else page);
               data = current_month_augmentation contains (checkbox s) (current_inflation s)
                        (clock s) data
           in case forecast_inflation P data (forecast_period s) of
                Inl e \<Rightarrow> (page, Some e)
              | Inr forecast \<Rightarrow>
                  (let display = forecast_display forecast (forecast_period s)
                   in (page @ [Chart data forecast,
                               ForecastTable display,
                               DownloadButton \<lparr>button_data = to_csv fmt display,
                                               file_name = ''nigeria_inflation_forecast.csv'',
                                               mime = ''text/csv''\<rparr>],
                       None))))"

text \<open>What the page shows in the raw-data view, and the download it offers.\<close>

fun raw_data_view :: "element list \<Rightarrow> obs list option" where
  "raw_data_view [] = None"
| "raw_data_view (RawData df # es) = Some df"
| "raw_data_view (e # es) = raw_data_view es"

fun download_of :: "element list \<Rightarrow> download_button option" where
  "download_of [] = None"
| "download_of (DownloadButton b # es) = Some b"
| "download_of (e # es) = download_of es"

fun forecast_table_of :: "element list \<Rightarrow> frame option" where
  "forecast_table_of [] = None"
| "forecast_table_of (ForecastTable f # es) = Some f"
| "forecast_table_of (e # es) = forecast_table_of es"

subsection \<open>Terms of the statements\<close>

text \<open>
  What the interface expects of a record of the response: an object with a
  \<^verbatim>\<open>value\<close> and a \<^verbatim>\<open>date\<close> that \<^verbatim>\<open>pd.to_datetime\<close> turns into a
  timestamp. \<open>rec_value\<close> and \<open>rec_date\<close> read a record (null where there is nothing
  to read), and \<open>expected_rows\<close> is the table the interface describes: one row for each
  record whose value is not null, in the order of the response.
\<close>

definition has_key :: "json \<Rightarrow> string \<Rightarrow> bool" where
  "has_key d k = (case d of JObj kvs \<Rightarrow> k \<in> set (map fst kvs) | _ \<Rightarrow> False)"

definition rec_value :: "json \<Rightarrow> json" where
  "rec_value d = (case getitem d ''value'' of Inr v \<Rightarrow> v | Inl e \<Rightarrow> JNull)"

definition rec_date :: "(json \<Rightarrow> error + datetime option) \<Rightarrow> json \<Rightarrow> datetime option" where
  "rec_date to_datetime d =
     (case getitem d ''date'' of
        Inr s \<Rightarrow> (case to_datetime s of Inr t \<Rightarrow> t | Inl e \<Rightarrow> None)
      | Inl e \<Rightarrow> None)"

definition valid_record :: "(json \<Rightarrow> error + datetime option) \<Rightarrow> json \<Rightarrow> bool" where
  "valid_record to_datetime d =
     (case getitem d ''value'' of
        Inl e \<Rightarrow> False
      | Inr v \<Rightarrow>
          (case getitem d ''date'' of
             Inl e \<Rightarrow> False
           | Inr s \<Rightarrow> (case to_datetime s of Inr (Some t) \<Rightarrow> True | _ \<Rightarrow> False)))"

definition expected_rows :: "(json \<Rightarrow> error + datetime option) \<Rightarrow> json list \<Rightarrow> obs list" where
  "expected_rows to_datetime recs =
     map (\<lambda>d. \<lparr>Date = rec_date to_datetime d, Inflation = rec_value d\<rparr>)
       (filter (\<lambda>d. rec_value d \<noteq> JNull) recs)"

text \<open>A parser that returns dates of the calendar only.\<close>

definition calendar_parser :: "(json \<Rightarrow> error + datetime option) \<Rightarrow> bool" where
  "calendar_parser to_datetime = (\<forall>j t. to_datetime j = Inr (Some t) \<longrightarrow> valid_date t)"

text \<open>The first month end after a timestamp, at its time of day.\<close>

definition month_ok :: "datetime \<Rightarrow> bool" where
  "month_ok t = (1 \<le> month t \<and> month t \<le> 12)"

definition first_month_end_after :: "datetime \<Rightarrow> datetime" where
  "first_month_end_after t = (if is_month_end t then next_month_end t else rollforward t)"



text \<open>The row of the displayed table for the date \<open>d\<close>.\<close>

definition table_row :: "'m prophet \<Rightarrow> 'm \<Rightarrow> datetime \<Rightarrow> cell list" where
  "table_row P model d =
     [Timestamp d, Float (yhat (predict P model d)), Float (yhat_lower (predict P model d)),
      Float (yhat_upper (predict P model d))]"

subsection \<open>Sample inputs\<close>

text \<open>
  Concrete inputs on which the statements below are evaluated: a parser that knows two year
  strings, a stand-in for Prophet that fits any series of two rows or more and predicts a
  constant, a cell formatter, and responses of the API.
\<close>

definition midnight :: "int \<Rightarrow> nat \<Rightarrow> nat \<Rightarrow> datetime" where
  "midnight y m d = \<lparr>year = y, month = m, day = d, hour = 0, minute = 0, second = 0, microsecond = 0\<rparr>"

definition at_time :: "int \<Rightarrow> nat \<Rightarrow> nat \<Rightarrow> nat \<Rightarrow> nat \<Rightarrow> nat \<Rightarrow> datetime" where
  "at_time y m d hh mm ss = \<lparr>year = y, month = m, day = d, hour = hh, minute = mm, second = ss, microsecond = 0\<rparr>"

text \<open>
  Two membership tests: one that finds nothing, as numpy on the values of pandas 2, and one
  that compares timestamps for equality.
\<close>

definition never_equal :: "datetime \<Rightarrow> datetime option list \<Rightarrow> bool" where
  "never_equal today dates = False"

definition same_timestamp :: "datetime \<Rightarrow> datetime option list \<Rightarrow> bool" where
  "same_timestamp today dates = (Some today \<in> set dates)"

definition sample_to_datetime :: "json \<Rightarrow> error + datetime option" where
  "sample_to_datetime j =
     (case j of
        JStr s \<Rightarrow>
          (if s = ''2022'' then Inr (Some (midnight 2022 1 1))
           else if s = ''2023'' then Inr (Some (midnight 2023 1 1))
           else Inl ValueError)
      | JNull \<Rightarrow> Inr None
      | _ \<Rightarrow> Inl ValueError)"

definition sample_prophet :: "unit prophet" where
  "sample_prophet =
     \<lparr>fit = (\<lambda>df. if length df < 2 then Inl ValueError else Inr ()),
      predict = (\<lambda>model d. \<lparr>yhat = 22, yhat_lower = 21, yhat_upper = 23\<rparr>)\<rparr>"

definition sample_fmt :: "cell \<Rightarrow> string" where
  "sample_fmt c = (case c of Timestamp t \<Rightarrow> ''t'' | Float x \<Rightarrow> ''x'')"

definition two_year_body :: json where
  "two_year_body =
     JArr [JObj [],
           JArr [JObj [(''date'', JStr ''2023''), (''value'', JNum 21.9)],
                 JObj [(''date'', JStr ''2022''), (''value'', JNum 21.8)]]]"

definition duplicate_year_body :: json where
  "duplicate_year_body =
     JArr [JObj [],
           JArr [JObj [(''date'', JStr ''2023''), (''value'', JNum 21.8)],
                 JObj [(''date'', JStr ''2023''), (''value'', JNum 21.9)]]]"

definition missing_date_body :: json where
  "missing_date_body =
     JArr [JObj [],
           JArr [JObj [(''date'', JStr ''2023''), (''value'', JNum 21.9)],
                 JObj [(''value'', JNull)],
                 JObj [(''date'', JStr ''2022''), (''value'', JNum 21.8)]]]"

definition example_series :: "obs list" where
  "example_series =
     [\<lparr>Date = Some (midnight 2023 1 1), Inflation = JNum 21.8\<rparr>,
      \<lparr>Date = Some (midnight 2023 2 1), Inflation = JNum 21.9\<rparr>]"

definition two_year_series :: "obs list" where
  "two_year_series =
     [\<lparr>Date = Some (midnight 2022 1 1), Inflation = JNum 21.8\<rparr>,
      \<lparr>Date = Some (midnight 2023 1 1), Inflation = JNum 21.9\<rparr>]"

definition example_forecast :: "forecast_row list" where
  "example_forecast =
     map (forecast_of sample_prophet ())
       [midnight 2023 1 1, midnight 2023 2 1, midnight 2023 2 28, midnight 2023 3 31, midnight 2023 4 30]"

definition sample_session :: session where
  "sample_session =
     \<lparr>response = Body (Some two_year_body), forecast_period = 3, checkbox = False,
      current_inflation = 0, clock = at_time 2026 11 3 10 0 0\<rparr>"

section \<open>Properties\<close>

subsection \<open>Data acquisition\<close>

lemma sort_values_nonempty: "df \<noteq> [] \<Longrightarrow> \<exists>t. sort_values df = Inr t"
  by (simp add: sort_values_def)

lemma dt_key_inj: "dt_key (a::datetime) = dt_key b \<Longrightarrow> a = b"
  by (cases a, cases b) (simp add: dt_key_def)

lemma comprehension_valid:
  "list_all (valid_record td) recs \<Longrightarrow> comprehension td recs = Inr (expected_rows td recs)"
  by (induction recs)
     (auto simp: valid_record_def expected_rows_def rec_value_def rec_date_def
           split: sum.splits option.splits)

lemma valid_record_dated: "valid_record td d \<Longrightarrow> rec_date td d \<noteq> None"
  by (auto simp: valid_record_def rec_date_def split: sum.splits option.splits)

lemma expected_rows_no_null:
  assumes "list_all (valid_record td) recs" and "r \<in> set (expected_rows td recs)"
  shows "Date r \<noteq> None \<and> Inflation r \<noteq> JNull"
proof -
  from assms(2) obtain d where d: "d \<in> set recs" "rec_value d \<noteq> JNull"
    and r: "r = \<lparr>Date = rec_date td d, Inflation = rec_value d\<rparr>"
    by (auto simp: expected_rows_def)
  from assms(1) d(1) have "valid_record td d" by (simp add: list_all_iff)
  then show ?thesis using d(2) r by (simp add: valid_record_dated)
qed

lemma sort_values_dated:
  assumes "df \<noteq> []" and "\<forall>r\<in>set df. Date r \<noteq> None"
  shows "sort_values df = Inr (sort_key (\<lambda>r. dt_key (the (Date r))) df)"
proof -
  have "filter (\<lambda>r. Date r \<noteq> None) df = df" using assms(2) by (simp add: filter_id_conv)
  moreover have "filter (\<lambda>r. Date r = None) df = []" using assms(2) by (simp add: filter_empty_conv)
  ultimately show ?thesis using assms(1) by (simp add: sort_values_def)
qed

lemma sort_values_set: "sort_values df = Inr tbl \<Longrightarrow> set tbl = set df"
  by (auto simp: sort_values_def split: if_splits)

lemma strict_keys:
  assumes "\<forall>r\<in>set xs. Date r \<noteq> None" and "distinct (map Date xs)"
  shows "distinct (map (\<lambda>r. dt_key (the (Date r))) xs)"
proof -
  have "inj_on (\<lambda>r. dt_key (the (Date r))) (set xs)"
  proof (rule inj_onI)
    fix a b assume a: "a \<in> set xs" and b: "b \<in> set xs"
      and eq: "dt_key (the (Date a)) = dt_key (the (Date b))"
    from eq have "the (Date a) = the (Date b)" by (rule dt_key_inj)
    moreover from assms(1) a b have "Date a \<noteq> None" "Date b \<noteq> None" by blast+
    ultimately have "Date a = Date b" by auto
    with assms(2) a b show "a = b" by (auto simp: distinct_map dest: inj_onD)
  qed
  moreover from assms(2) have "distinct xs" by (simp add: distinct_map)
  ultimately show ?thesis by (simp add: distinct_map)
qed

lemma acquisition_of_valid:
  assumes valid: "list_all (valid_record td) recs"
      and some: "filter (\<lambda>d. rec_value d \<noteq> JNull) recs \<noteq> []"
  shows "get_world_bank_inflation td (Body (Some (JArr (meta # JArr recs # rest))))
           = Inr (sort_key (\<lambda>r. dt_key (the (Date r))) (expected_rows td recs))"
proof -
  have nn: "\<forall>r\<in>set (expected_rows td recs). Date r \<noteq> None"
    using expected_rows_no_null [OF valid] by blast
  from some have ne: "expected_rows td recs \<noteq> []" by (simp add: expected_rows_def)
  show ?thesis
    by (simp add: get_world_bank_inflation_def second_element_def iterate_def
          comprehension_valid [OF valid] sort_values_dated [OF ne nn])
qed

lemma two_year_run:
  "get_world_bank_inflation sample_to_datetime (Body (Some two_year_body)) = Inr two_year_series"
  by (simp add: get_world_bank_inflation_def two_year_body_def second_element_def iterate_def
        getitem_def dict_get_def sample_to_datetime_def sort_values_def two_year_series_def
        midnight_def dt_key_def)

text \<open>
  C5, as the code has it. For a response whose second element is a list of records, each
  an object with a value and a date that parses to a timestamp, and at least two of them
  with a value that is not null, \<open>get_world_bank_inflation\<close> returns a table that holds
  exactly the rows of the records whose value is not null, in ascending order of date, with
  no null date and no null value. The order is strict when no two of those rows have the
  same date; the code does nothing about records of equal date.
\<close>

theorem acquisition_sorted_non_null:
  assumes valid: "list_all (valid_record to_datetime) recs"
      and two: "2 \<le> length (filter (\<lambda>d. rec_value d \<noteq> JNull) recs)"
  shows "\<exists>tbl. get_world_bank_inflation to_datetime (Body (Some (JArr (meta # JArr recs # rest)))) = Inr tbl
           \<and> mset tbl = mset (expected_rows to_datetime recs)
           \<and> sorted (map (\<lambda>r. dt_key (the (Date r))) tbl)
           \<and> (\<forall>r\<in>set tbl. Date r \<noteq> None \<and> Inflation r \<noteq> JNull)
           \<and> (distinct (map Date (expected_rows to_datetime recs))
                \<longrightarrow> sorted_wrt (<) (map (\<lambda>r. dt_key (the (Date r))) tbl))"
proof -
  let ?rows = "expected_rows to_datetime recs"
  let ?k = "\<lambda>r. dt_key (the (Date r))"
  have nn: "\<forall>r\<in>set ?rows. Date r \<noteq> None \<and> Inflation r \<noteq> JNull"
    using expected_rows_no_null [OF valid] by blast
  from two have "0 < length (filter (\<lambda>d. rec_value d \<noteq> JNull) recs)" by linarith
  then have some: "filter (\<lambda>d. rec_value d \<noteq> JNull) recs \<noteq> []" by blast
  have run: "get_world_bank_inflation to_datetime (Body (Some (JArr (meta # JArr recs # rest))))
               = Inr (sort_key ?k ?rows)"
    by (rule acquisition_of_valid [OF valid some])
  have strict: "sorted_wrt (<) (map ?k (sort_key ?k ?rows))" if d: "distinct (map Date ?rows)"
  proof -
    have "distinct (map ?k ?rows)" using nn d by (simp add: strict_keys)
    then have "distinct (map ?k (sort_key ?k ?rows))" by (simp add: distinct_map)
    then show ?thesis by (simp add: strict_sorted_iff)
  qed
  show ?thesis
    using run nn strict by (intro exI [of _ "sort_key ?k ?rows"]) simp
qed

text \<open>The statement at the response of two years, 2023 before 2022: the table comes back sorted.\<close>

theorem acquisition_sorted_non_null_witness:
  "\<exists>tbl. get_world_bank_inflation sample_to_datetime (Body (Some two_year_body)) = Inr tbl
     \<and> sorted_wrt (<) (map (\<lambda>r. dt_key (the (Date r))) tbl)
     \<and> length tbl = 2"
proof -
  let ?recs = "[JObj [(''date'', JStr ''2023''), (''value'', JNum 21.9)],
                JObj [(''date'', JStr ''2022''), (''value'', JNum 21.8)]]"
  have valid: "list_all (valid_record sample_to_datetime) ?recs"
    by (simp add: valid_record_def getitem_def dict_get_def sample_to_datetime_def)
  have two: "2 \<le> length (filter (\<lambda>d. rec_value d \<noteq> JNull) ?recs)"
    by (simp add: rec_value_def getitem_def dict_get_def)
  have rows: "expected_rows sample_to_datetime ?recs =
      [\<lparr>Date = Some (midnight 2023 1 1), Inflation = JNum 21.9\<rparr>,
       \<lparr>Date = Some (midnight 2022 1 1), Inflation = JNum 21.8\<rparr>]"
    by (simp add: expected_rows_def rec_value_def rec_date_def getitem_def dict_get_def
          sample_to_datetime_def)
  have d: "distinct (map Date (expected_rows sample_to_datetime ?recs))"
    unfolding rows by (simp add: midnight_def)
  from acquisition_sorted_non_null [OF valid two, of "JObj []" "[]"] d
  obtain tbl where run: "get_world_bank_inflation sample_to_datetime (Body (Some two_year_body)) = Inr tbl"
    and m: "mset tbl = mset (expected_rows sample_to_datetime ?recs)"
    and s: "sorted_wrt (<) (map (\<lambda>r. dt_key (the (Date r))) tbl)"
    by (auto simp: two_year_body_def)
  from m have "size (mset tbl) = size (mset (expected_rows sample_to_datetime ?recs))" by simp
  then have "length tbl = 2" unfolding rows by simp
  with run s show ?thesis by blast
qed

text \<open>
  C5 as the claim has it fails: a response with two records of the year 2023 is sorted, but
  not strictly.
\<close>

theorem acquisition_strict_counterexample:
  "list_all (valid_record sample_to_datetime)
     [JObj [(''date'', JStr ''2023''), (''value'', JNum 21.8)],
      JObj [(''date'', JStr ''2023''), (''value'', JNum 21.9)]]
   \<and> get_world_bank_inflation sample_to_datetime (Body (Some duplicate_year_body))
       = Inr [\<lparr>Date = Some (midnight 2023 1 1), Inflation = JNum 21.8\<rparr>,
              \<lparr>Date = Some (midnight 2023 1 1), Inflation = JNum 21.9\<rparr>]
   \<and> \<not> sorted_wrt (<) (map (\<lambda>r. dt_key (the (Date r)))
         [\<lparr>Date = Some (midnight 2023 1 1), Inflation = JNum 21.8\<rparr>,
          \<lparr>Date = Some (midnight 2023 1 1), Inflation = JNum 21.9\<rparr>])"
  by (simp add: get_world_bank_inflation_def duplicate_year_body_def second_element_def iterate_def
        valid_record_def getitem_def dict_get_def sample_to_datetime_def sort_values_def)

lemma missing_key_raises: "\<not> has_key d k \<Longrightarrow> \<exists>e. getitem d k = Inl e"
proof (cases d)
  case (JObj kvs)
  assume "\<not> has_key d k"
  with JObj have "k \<notin> fst ` set (rev kvs)" by (simp add: has_key_def)
  then have "map_of (rev kvs) k = None" by (simp add: map_of_eq_None_iff)
  with JObj show ?thesis by (simp add: getitem_def dict_get_def)
qed (simp_all add: getitem_def)

lemma comprehension_raises:
  assumes "d \<in> set recs"
      and "(\<exists>e. getitem d ''value'' = Inl e) \<or> (rec_value d \<noteq> JNull \<and> (\<exists>e. getitem d ''date'' = Inl e))"
  shows "\<exists>e. comprehension td recs = Inl e"
  using assms
proof (induction recs)
  case Nil
  then show ?case by simp
next
  case (Cons x recs)
  show ?case
  proof (cases "x = d")
    case True
    with Cons.prems(2) show ?thesis
      by (auto simp: rec_value_def split: sum.splits)
  next
    case False
    with Cons.prems have "d \<in> set recs" by simp
    from Cons.IH [OF this Cons.prems(2)] obtain e where "comprehension td recs = Inl e" by blast
    then show ?thesis by (simp split: sum.splits)
  qed
qed

lemma script_acquisition_failure:
  "get_world_bank_inflation td (response s) = Inl e \<Longrightarrow> script td isin P fmt s = ([PageConfig, Title], Some e)"
  by (simp add: script_def)

lemma script_raw_data_view:
  "raw_data_view (fst (script td isin P fmt s))
     = (case get_world_bank_inflation td (response s) of Inl e \<Rightarrow> None | Inr df \<Rightarrow> Some (tail 12 df))"
  by (simp add: script_def Let_def split: sum.splits)

lemma tail_short: "length xs \<le> n \<Longrightarrow> tail n xs = xs"
  by (simp add: tail_def)

text \<open>
  C8, as the code has it. The acquisition raises when the request fails, when the body is
  not JSON, when the response has no second element, when a record has no \<^verbatim>\<open>value\<close>
  and when a record whose value is not null has no \<^verbatim>\<open>date\<close>. Whenever the
  acquisition raises, the run ends with that exception, and the page holds the page
  configuration and the title only: nothing computed from data. A record whose value is null
  is dropped before its date is read.
\<close>

theorem acquisition_failure_aborts:
  "get_world_bank_inflation td Failed = Inl RequestException
   \<and> get_world_bank_inflation td (Body None) = Inl JSONDecodeError
   \<and> (length xs < 2 \<longrightarrow> get_world_bank_inflation td (Body (Some (JArr xs))) = Inl IndexError)
   \<and> ((\<exists>d\<in>set recs. \<not> has_key d ''value'' \<or> (rec_value d \<noteq> JNull \<and> \<not> has_key d ''date''))
        \<longrightarrow> (\<exists>e. get_world_bank_inflation td (Body (Some (JArr (meta # JArr recs # rest)))) = Inl e))
   \<and> (get_world_bank_inflation td (response s) = Inl e
        \<longrightarrow> script td isin P fmt s = ([PageConfig, Title], Some e))"
proof -
  have short: "get_world_bank_inflation td (Body (Some (JArr xs))) = Inl IndexError" if "length xs < 2"
    using that by (simp add: get_world_bank_inflation_def second_element_def)
  have keys: "\<exists>e. get_world_bank_inflation td (Body (Some (JArr (meta # JArr recs # rest)))) = Inl e"
    if "\<exists>d\<in>set recs. \<not> has_key d ''value'' \<or> (rec_value d \<noteq> JNull \<and> \<not> has_key d ''date'')"
  proof -
    from that obtain d where d: "d \<in> set recs"
      and "\<not> has_key d ''value'' \<or> (rec_value d \<noteq> JNull \<and> \<not> has_key d ''date'')" by blast
    then have "(\<exists>e. getitem d ''value'' = Inl e)
        \<or> (rec_value d \<noteq> JNull \<and> (\<exists>e. getitem d ''date'' = Inl e))"
      using missing_key_raises by blast
    from comprehension_raises [OF d this] obtain e where "comprehension td recs = Inl e" by blast
    then show ?thesis
      by (simp add: get_world_bank_inflation_def second_element_def iterate_def)
  qed
  show ?thesis
    using short keys script_acquisition_failure [where td = td and s = s and e = e and isin = isin and P = P and fmt = fmt]
    by (simp add: get_world_bank_inflation_def)
qed

text \<open>
  The statement at a request that fails, at a response of one element, and at a record
  without a value.
\<close>

theorem acquisition_failure_aborts_witness:
  "get_world_bank_inflation sample_to_datetime (Body (Some (JArr [JObj []]))) = Inl IndexError
   \<and> (\<exists>e. get_world_bank_inflation sample_to_datetime
             (Body (Some (JArr [JObj [], JArr [JObj [(''date'', JStr ''2023'')]]]))) = Inl e)
   \<and> script sample_to_datetime never_equal sample_prophet sample_fmt (sample_session\<lparr>response := Failed\<rparr>)
       = ([PageConfig, Title], Some RequestException)"
proof -
  have a: "length [JObj []] < 2" by simp
  have b: "\<exists>d\<in>set [JObj [(''date'', JStr ''2023'')]].
             \<not> has_key d ''value'' \<or> (rec_value d \<noteq> JNull \<and> \<not> has_key d ''date'')"
    by (simp add: has_key_def)
  have c: "get_world_bank_inflation sample_to_datetime
             (response (sample_session\<lparr>response := Failed\<rparr>)) = Inl RequestException"
    by (simp add: get_world_bank_inflation_def)
  show ?thesis
    using acquisition_failure_aborts [where td = sample_to_datetime and xs = "[JObj []]"
        and recs = "[JObj [(''date'', JStr ''2023'')]]" and meta = "JObj []" and rest = "[]"
        and s = "sample_session\<lparr>response := Failed\<rparr>" and e = RequestException
        and isin = never_equal and P = sample_prophet and fmt = sample_fmt]
      a b c
    by blast
qed

text \<open>
  C8 as the claim has it fails: the second record of this response has no date, its value
  is null, and the acquisition returns the table of the other two records.
\<close>

theorem missing_date_counterexample:
  "\<not> has_key (JObj [(''value'', JNull)]) ''date''
   \<and> missing_date_body =
       JArr [JObj [],
             JArr [JObj [(''date'', JStr ''2023''), (''value'', JNum 21.9)],
                   JObj [(''value'', JNull)],
                   JObj [(''date'', JStr ''2022''), (''value'', JNum 21.8)]]]
   \<and> get_world_bank_inflation sample_to_datetime (Body (Some missing_date_body)) = Inr two_year_series"
  by (simp add: has_key_def get_world_bank_inflation_def missing_date_body_def second_element_def
        iterate_def getitem_def dict_get_def sample_to_datetime_def sort_values_def
        two_year_series_def midnight_def dt_key_def)

subsection \<open>The raw-data view\<close>

text \<open>
  C9. The raw-data view of a run shows the last 12 rows of the series the acquisition
  returned, and it is the same whatever the state of the checkbox and the number entered.
\<close>

theorem raw_data_view_independent:
  "raw_data_view (fst (script td isin P fmt (s\<lparr>checkbox := b, current_inflation := v\<rparr>)))
     = raw_data_view (fst (script td isin P fmt s))
   \<and> raw_data_view (fst (script td isin P fmt s))
     = (case get_world_bank_inflation td (response s) of
          Inl e \<Rightarrow> None
        | Inr df \<Rightarrow> Some (tail 12 df))"
  by (simp add: script_raw_data_view)

text \<open>The statement at the sample session, with the checkbox ticked and 22 entered.\<close>

theorem raw_data_view_independent_witness:
  "raw_data_view (fst (script sample_to_datetime never_equal sample_prophet sample_fmt
       (sample_session\<lparr>checkbox := True, current_inflation := 22\<rparr>))) = Some two_year_series"
proof -
  have "response sample_session = Body (Some two_year_body)" by (simp add: sample_session_def)
  moreover have "tail 12 two_year_series = two_year_series"
    by (rule tail_short) (simp add: two_year_series_def)
  ultimately show ?thesis
    using raw_data_view_independent [where td = sample_to_datetime and isin = never_equal and P = sample_prophet
        and fmt = sample_fmt and s = sample_session and b = True and v = 22]
    by (simp add: two_year_run)
qed

subsection \<open>Interactive input\<close>

text \<open>
  C10. Whatever the membership test answers, the augmentation returns the series as it was,
  or the series with one row appended at its end; the rows that were there stay where they
  were. The new row holds the number entered and the clock's reading with its day set to 1:
  the same year and month.
\<close>

theorem augmentation_appends_at_most_one:
  "(current_month_augmentation isin b v now df = df
      \<or> current_month_augmentation isin b v now df
          = df @ [\<lparr>Date = Some (now\<lparr>day := 1\<rparr>), Inflation = JNum v\<rparr>])
   \<and> take (length df) (current_month_augmentation isin b v now df) = df
   \<and> day (now\<lparr>day := 1\<rparr>) = 1 \<and> month (now\<lparr>day := 1\<rparr>) = month now
   \<and> year (now\<lparr>day := 1\<rparr>) = year now"
  by (simp add: current_month_augmentation_def Let_def)

text \<open>The statement at the example series, on 3 November 2026 at 10:00:00, with 22 entered.\<close>

theorem augmentation_appends_at_most_one_witness:
  "take 2 (current_month_augmentation never_equal True 22 (at_time 2026 11 3 10 0 0) example_series)
     = example_series
   \<and> current_month_augmentation never_equal True 22 (at_time 2026 11 3 10 0 0) example_series
       = example_series @ [\<lparr>Date = Some (at_time 2026 11 1 10 0 0), Inflation = JNum 22\<rparr>]"
proof -
  have "length example_series = 2" by (simp add: example_series_def)
  moreover have "current_month_augmentation never_equal True 22 (at_time 2026 11 3 10 0 0) example_series
      \<noteq> example_series"
    by (simp add: current_month_augmentation_def Let_def never_equal_def)
  moreover have "(at_time 2026 11 3 10 0 0)\<lparr>day := 1\<rparr> = at_time 2026 11 1 10 0 0"
    by (simp add: at_time_def)
  ultimately show ?thesis
    using augmentation_appends_at_most_one [where isin = never_equal and b = True and v = 22
        and now = "at_time 2026 11 3 10 0 0" and df = example_series]
    by auto
qed

text \<open>
  Two runs of the augmentation in a row append two rows whenever the second reading of the
  clock, with its day set to 1, is not among the dates after the first run and the test
  finds only what is there.
\<close>

lemma augmentation_twice:
  assumes "\<forall>t dates. isin t dates \<longrightarrow> Some t \<in> set dates"
      and "Some (t2\<lparr>day := 1\<rparr>) \<notin> set (map Date (current_month_augmentation isin True v t1 df))"
  shows "length (current_month_augmentation isin True v t2 (current_month_augmentation isin True v t1 df))
           = length (current_month_augmentation isin True v t1 df) + 1"
proof -
  from assms have "\<not> isin (t2\<lparr>day := 1\<rparr>) (map Date (current_month_augmentation isin True v t1 df))"
    by blast
  then show ?thesis by (simp add: current_month_augmentation_def [of isin True v t2] Let_def)
qed

text \<open>
  C4 on the code: two runs of the augmentation one second apart, in the same month, with the
  same number entered. The day of the clock's reading is set to 1 but its time of day is
  kept, so the row of the first run is not found by the second, which appends another. This
  is so when the test compares timestamps for equality, and when it finds nothing.
\<close>

theorem augmentation_twice_same_month:
  "current_month_augmentation same_timestamp True 22 (at_time 2026 11 3 10 0 1)
     (current_month_augmentation same_timestamp True 22 (at_time 2026 11 3 10 0 0) example_series)
   = example_series
       @ [\<lparr>Date = Some (at_time 2026 11 1 10 0 0), Inflation = JNum 22\<rparr>,
          \<lparr>Date = Some (at_time 2026 11 1 10 0 1), Inflation = JNum 22\<rparr>]
   \<and> current_month_augmentation never_equal True 22 (at_time 2026 11 3 10 0 1)
     (current_month_augmentation never_equal True 22 (at_time 2026 11 3 10 0 0) example_series)
   = example_series
       @ [\<lparr>Date = Some (at_time 2026 11 1 10 0 0), Inflation = JNum 22\<rparr>,
          \<lparr>Date = Some (at_time 2026 11 1 10 0 1), Inflation = JNum 22\<rparr>]"
  by (simp add: current_month_augmentation_def Let_def example_series_def at_time_def midnight_def
        same_timestamp_def never_equal_def)

subsection \<open>The calendar of the forecast\<close>

lemma length_month_ends: "length (month_ends t n) = n"
  by (induction n arbitrary: t) auto

lemma take_month_ends: "take n (month_ends t (Suc n)) = month_ends t n"
  by (induction n arbitrary: t) auto

lemma month_ends_numeral:
  "month_ends t (numeral k) = t # month_ends (next_month_end t) (pred_numeral k)"
  by (simp add: numeral_eq_Suc)

lemma next_month_end_ok: "month_ok t \<Longrightarrow> month_ok (next_month_end t) \<and> is_month_end (next_month_end t)"
  by (auto simp: month_ok_def next_month_end_def is_month_end_def days_in_month_def)

lemma next_month_end_index: "month_ok t \<Longrightarrow> month_index (next_month_end t) = month_index t + 1"
  by (auto simp: month_ok_def next_month_end_def month_index_def)

lemma next_month_end_later: "month_ok t \<Longrightarrow> dt_key t < dt_key (next_month_end t)"
  by (auto simp: month_ok_def next_month_end_def dt_key_def less_prod_def)

lemma month_ends_props:
  "month_ok t \<Longrightarrow> is_month_end t \<Longrightarrow> d \<in> set (month_ends t n) \<Longrightarrow>
     is_month_end d \<and> month_ok d \<and> dt_key t \<le> dt_key d"
proof (induction n arbitrary: t)
  case 0
  then show ?case by simp
next
  case (Suc n)
  show ?case
  proof (cases "d = t")
    case True
    with Suc.prems show ?thesis by simp
  next
    case False
    with Suc.prems have "d \<in> set (month_ends (next_month_end t) n)" by simp
    with Suc.IH [of "next_month_end t"] next_month_end_ok [OF Suc.prems(1)]
    have "is_month_end d \<and> month_ok d \<and> dt_key (next_month_end t) \<le> dt_key d" by blast
    with next_month_end_later [OF Suc.prems(1)] show ?thesis by auto
  qed
qed

lemma month_ends_index:
  "month_ok t \<Longrightarrow> i < n \<Longrightarrow> month_index (month_ends t n ! i) = month_index t + int i"
proof (induction n arbitrary: t i)
  case 0
  then show ?case by simp
next
  case (Suc n)
  show ?case
  proof (cases i)
    case 0
    then show ?thesis by simp
  next
    case (Suc j)
    with Suc.prems have "j < n" by simp
    with Suc.IH [of "next_month_end t" j] next_month_end_ok [OF Suc.prems(1)]
    have "month_index (month_ends (next_month_end t) n ! j) = month_index (next_month_end t) + int j"
      by blast
    with Suc next_month_end_index [OF Suc.prems(1)] show ?thesis by simp
  qed
qed

lemma valid_month_ok: "valid_date t \<Longrightarrow> month_ok t"
  by (simp add: valid_date_def month_ok_def)

lemma rollforward_ok: "month_ok t \<Longrightarrow> month_ok (rollforward t) \<and> is_month_end (rollforward t)"
  by (simp add: month_ok_def rollforward_def is_month_end_def)

lemma rollforward_later:
  "valid_date t \<Longrightarrow> \<not> is_month_end t \<Longrightarrow> dt_key t < dt_key (rollforward t)"
  by (auto simp: valid_date_def is_month_end_def rollforward_def dt_key_def less_prod_def)

lemma first_after_ok:
  "valid_date t \<Longrightarrow> month_ok (first_month_end_after t) \<and> is_month_end (first_month_end_after t)
     \<and> dt_key t < dt_key (first_month_end_after t)"
  using next_month_end_ok [of t] next_month_end_later [of t] rollforward_ok [of t]
    rollforward_later [of t] valid_month_ok [of t]
  by (auto simp: first_month_end_after_def)

lemma first_after_index:
  "valid_date t \<Longrightarrow>
     month_index (first_month_end_after t) = month_index t + (if is_month_end t then 1 else 0)"
  using next_month_end_index [of t] valid_month_ok [of t]
  by (simp add: first_month_end_after_def rollforward_def month_index_def)

lemma filter_later_all:
  assumes "month_ok t" "is_month_end t" "dt_key l < dt_key t"
  shows "filter (\<lambda>d. dt_key l < dt_key d) (month_ends t n) = month_ends t n"
proof -
  have "\<forall>d\<in>set (month_ends t n). dt_key l < dt_key d"
    using month_ends_props [OF assms(1,2)] assms(3) by (meson less_le_trans)
  then show ?thesis by (simp add: filter_id_conv)
qed

lemma future_dates:
  assumes "valid_date l"
  shows "take n (filter (\<lambda>d. dt_key l < dt_key d) (date_range l (n + 1)))
           = month_ends (first_month_end_after l) n"
proof (cases "is_month_end l")
  case True
  then have rf: "rollforward l = l" by (simp add: rollforward_def is_month_end_def)
  have ok: "month_ok (next_month_end l)" "is_month_end (next_month_end l)"
    "dt_key l < dt_key (next_month_end l)"
    using next_month_end_ok next_month_end_later valid_month_ok [OF assms] by blast+
  have "filter (\<lambda>d. dt_key l < dt_key d) (date_range l (n + 1)) = month_ends (next_month_end l) n"
    using filter_later_all [OF ok] by (simp add: date_range_def rf)
  with True show ?thesis by (simp add: first_month_end_after_def length_month_ends)
next
  case False
  have ok: "month_ok (rollforward l)" "is_month_end (rollforward l)"
    "dt_key l < dt_key (rollforward l)"
    using rollforward_ok rollforward_later valid_month_ok [OF assms] assms False by blast+
  have "filter (\<lambda>d. dt_key l < dt_key d) (date_range l (n + 1)) = month_ends (rollforward l) (Suc n)"
    using filter_later_all [OF ok, of "Suc n"] by (simp add: date_range_def)
  with False show ?thesis by (simp add: first_month_end_after_def take_month_ends del: month_ends.simps)
qed

lemma max_date_props:
  "max_date m xs \<in> set (m # xs) \<and> (\<forall>d\<in>set (m # xs). dt_key d \<le> dt_key (max_date m xs))"
proof (induction xs arbitrary: m)
  case Nil
  then show ?case by simp
next
  case (Cons d xs)
  let ?m = "if dt_key m < dt_key d then d else m"
  from Cons [of ?m] have mem: "max_date ?m xs \<in> set (?m # xs)"
    and ub: "\<forall>x\<in>set (?m # xs). dt_key x \<le> dt_key (max_date ?m xs)" by blast+
  from ub have "dt_key ?m \<le> dt_key (max_date ?m xs)" by simp
  then have "dt_key m \<le> dt_key (max_date ?m xs)" "dt_key d \<le> dt_key (max_date ?m xs)"
    by (auto split: if_splits)
  with mem ub show ?case by (auto split: if_splits)
qed

lemma set_history_dates: "set (history_dates df) = (\<lambda>r. the (Date r)) ` set df"
  by (simp add: history_dates_def)

lemma make_future_dataframe_eval:
  "make_future_dataframe (h # hs) n
     = Inr ((h # hs) @ take n (filter (\<lambda>d. dt_key (max_date h hs) < dt_key d)
                                (date_range (max_date h hs) (n + 1))))"
  by (simp add: make_future_dataframe_def Let_def)

lemma make_future_dataframe_dates:
  assumes "make_future_dataframe hist n = Inr future" and "\<forall>d\<in>set hist. valid_date d"
  shows "\<exists>l\<in>set hist. (\<forall>d\<in>set hist. dt_key d \<le> dt_key l)
           \<and> future = hist @ month_ends (first_month_end_after l) n"
proof (cases hist)
  case Nil
  with assms(1) show ?thesis by (simp add: make_future_dataframe_def)
next
  case (Cons h hs)
  let ?l = "max_date h hs"
  from max_date_props [of h hs] Cons
  have mem: "?l \<in> set hist" and ub: "\<forall>d\<in>set hist. dt_key d \<le> dt_key ?l" by simp_all
  from mem assms(2) have "valid_date ?l" by blast
  then have "take n (filter (\<lambda>d. dt_key ?l < dt_key d) (date_range ?l (n + 1)))
               = month_ends (first_month_end_after ?l) n" by (rule future_dates)
  with assms(1) Cons have "future = hist @ month_ends (first_month_end_after ?l) n"
    by (simp add: make_future_dataframe_eval)
  with mem ub show ?thesis by blast
qed

subsection \<open>Forecast engine and presentation\<close>

lemma tail_append: "length ys = n \<Longrightarrow> tail n (xs @ ys) = ys"
  by (simp add: tail_def)

lemma forecast_inflation_dated:
  assumes "forecast_inflation P df n = Inr forecast"
  shows "\<forall>r\<in>set df. Date r \<noteq> None"
proof
  fix r assume "r \<in> set df"
  then have "Date r \<in> set (map Date df)" by simp
  moreover from assms have "None \<notin> set (map Date df)"
    by (simp add: forecast_inflation_def split: if_splits)
  ultimately show "Date r \<noteq> None" by metis
qed

lemma forecast_inflation_rows:
  assumes run: "forecast_inflation P df n = Inr forecast"
      and dates: "\<forall>r\<in>set df. \<exists>t. Date r = Some t \<and> valid_date t"
  shows "\<exists>model r. fit P df = Inr model \<and> r \<in> set df
           \<and> (\<forall>r'\<in>set df. dt_key (the (Date r')) \<le> dt_key (the (Date r)))
           \<and> forecast = map (forecast_of P model)
                (history_dates df @ month_ends (first_month_end_after (the (Date r))) n)"
proof -
  from run obtain model future where fit: "fit P df = Inr model"
    and fut: "make_future_dataframe (history_dates df) n = Inr future"
    and fc: "forecast = map (forecast_of P model) future"
    by (auto simp: forecast_inflation_def split: if_splits sum.splits)
  have "\<forall>d\<in>set (history_dates df). valid_date d"
    using dates by (auto simp: set_history_dates)
  from make_future_dataframe_dates [OF fut this]
  obtain l where l: "l \<in> set (history_dates df)"
    and ub: "\<forall>d\<in>set (history_dates df). dt_key d \<le> dt_key l"
    and future: "future = history_dates df @ month_ends (first_month_end_after l) n" by blast
  from l obtain r where r: "r \<in> set df" "l = the (Date r)" by (auto simp: set_history_dates)
  from ub have "\<forall>r'\<in>set df. dt_key (the (Date r')) \<le> dt_key l" by (simp add: set_history_dates)
  with fit r fc future show ?thesis by blast
qed

lemma forecast_display_columns:
  "columns (forecast_display forecast n) = [''Date'', ''Forecast'', ''Lower Bound'', ''Upper Bound'']"
  by (simp add: forecast_display_def rename_def select_columns_def)

lemma forecast_display_rows:
  assumes "length future = n"
  shows "rows (forecast_display (map (forecast_of P model) (hist @ future)) n)
           = map (table_row P model) future"
proof -
  have "rows (select_columns (map (forecast_of P model) (hist @ future)))
          = map (table_row P model) hist @ map (table_row P model) future"
    by (simp add: select_columns_def forecast_of_def table_row_def)
  then show ?thesis using assms
    by (simp add: forecast_display_def rename_def tail_append)
qed

text \<open>
  The displayed table of a fitted series with dates of the calendar: its rows are those of
  the \<open>n\<close> month ends that follow the latest date of the series.
\<close>

lemma displayed_table:
  assumes run: "forecast_inflation P df n = Inr forecast"
      and dates: "\<forall>r\<in>set df. \<exists>t. Date r = Some t \<and> valid_date t"
  shows "\<exists>model r. fit P df = Inr model \<and> r \<in> set df \<and> valid_date (the (Date r))
           \<and> (\<forall>r'\<in>set df. dt_key (the (Date r')) \<le> dt_key (the (Date r)))
           \<and> rows (forecast_display forecast n)
               = map (table_row P model) (month_ends (first_month_end_after (the (Date r))) n)"
proof -
  from forecast_inflation_rows [OF run dates]
  obtain model r where fit: "fit P df = Inr model" and r: "r \<in> set df"
    and ub: "\<forall>r'\<in>set df. dt_key (the (Date r')) \<le> dt_key (the (Date r))"
    and fc: "forecast = map (forecast_of P model)
                (history_dates df @ month_ends (first_month_end_after (the (Date r))) n)"
    by blast
  from dates r have "valid_date (the (Date r))" by auto
  moreover have "rows (forecast_display forecast n)
      = map (table_row P model) (month_ends (first_month_end_after (the (Date r))) n)"
    unfolding fc by (rule forecast_display_rows) (rule length_month_ends)
  ultimately show ?thesis using fit r ub by blast
qed

lemma month_ends_after:
  assumes "valid_date l" and "d \<in> set (month_ends (first_month_end_after l) n)"
  shows "is_month_end d \<and> dt_key l < dt_key d"
proof -
  from first_after_ok [OF assms(1)] month_ends_props [OF _ _ assms(2)]
  have "is_month_end d" and "dt_key (first_month_end_after l) \<le> dt_key d" by blast+
  with first_after_ok [OF assms(1)] show ?thesis by (meson less_le_trans)
qed

lemma month_ends_consecutive:
  assumes "valid_date l" and "Suc i < n"
  shows "month_index (month_ends (first_month_end_after l) n ! Suc i)
           = month_index (month_ends (first_month_end_after l) n ! i) + 1"
proof -
  from first_after_ok [OF assms(1)] have ok: "month_ok (first_month_end_after l)" by blast
  from assms(2) have "i < n" by simp
  from month_ends_index [OF ok assms(2)] month_ends_index [OF ok this] show ?thesis by simp
qed

lemma month_ends_first: "0 < n \<Longrightarrow> month_ends t n ! 0 = t"
  by (cases n) simp_all

text \<open>
  C2. For a series that Prophet fits, with dates of the calendar, and any horizon \<open>n\<close> (the
  slider gives 3 to 36), the displayed table has the columns Date, Forecast, Lower Bound and
  Upper Bound and exactly \<open>n\<close> rows. Their dates are month ends, each later than every
  date of the series, in consecutive months, and the first of them is the first month end
  after the latest date of the series.
\<close>

theorem forecast_table_covers_horizon:
  assumes run: "forecast_inflation P df n = Inr forecast"
      and dates: "\<forall>r\<in>set df. \<exists>t. Date r = Some t \<and> valid_date t"
  shows "\<exists>model dates r.
           fit P df = Inr model
         \<and> columns (forecast_display forecast n) = [''Date'', ''Forecast'', ''Lower Bound'', ''Upper Bound'']
         \<and> rows (forecast_display forecast n) = map (table_row P model) dates
         \<and> length (rows (forecast_display forecast n)) = n
         \<and> length dates = n
         \<and> (\<forall>d\<in>set dates. is_month_end d \<and> (\<forall>r'\<in>set df. dt_key (the (Date r')) < dt_key d))
         \<and> (\<forall>i. Suc i < n \<longrightarrow> month_index (dates ! Suc i) = month_index (dates ! i) + 1)
         \<and> r \<in> set df \<and> (\<forall>r'\<in>set df. dt_key (the (Date r')) \<le> dt_key (the (Date r)))
         \<and> (0 < n \<longrightarrow> dates ! 0 = first_month_end_after (the (Date r)))"
proof -
  from displayed_table [OF run dates]
  obtain model r where fit: "fit P df = Inr model" and r: "r \<in> set df"
    and v: "valid_date (the (Date r))"
    and ub: "\<forall>r'\<in>set df. dt_key (the (Date r')) \<le> dt_key (the (Date r))"
    and rws: "rows (forecast_display forecast n)
               = map (table_row P model) (month_ends (first_month_end_after (the (Date r))) n)"
    by blast
  let ?dates = "month_ends (first_month_end_after (the (Date r))) n"
  have len: "length ?dates = n" by (rule length_month_ends)
  have after: "\<forall>d\<in>set ?dates. is_month_end d \<and> (\<forall>r'\<in>set df. dt_key (the (Date r')) < dt_key d)"
  proof
    fix d assume "d \<in> set ?dates"
    from month_ends_after [OF v this] have "is_month_end d" and "dt_key (the (Date r)) < dt_key d"
      by blast+
    with ub show "is_month_end d \<and> (\<forall>r'\<in>set df. dt_key (the (Date r')) < dt_key d)"
      by (meson le_less_trans)
  qed
  have cons: "\<forall>i. Suc i < n \<longrightarrow> month_index (?dates ! Suc i) = month_index (?dates ! i) + 1"
    using month_ends_consecutive [OF v] by blast
  have first: "0 < n \<longrightarrow> ?dates ! 0 = first_month_end_after (the (Date r))"
    by (simp add: month_ends_first)
  have "length (rows (forecast_display forecast n)) = n" by (simp add: rws len)
  with fit forecast_display_columns rws len after cons r ub first show ?thesis by blast
qed

subsection \<open>The example of the specification\<close>

lemma example_history: "history_dates example_series = [midnight 2023 1 1, midnight 2023 2 1]"
  by (simp add: history_dates_def example_series_def midnight_def dt_key_def)

lemma example_future:
  "make_future_dataframe [midnight 2023 1 1, midnight 2023 2 1] 3
     = Inr ([midnight 2023 1 1, midnight 2023 2 1]
            @ [midnight 2023 2 28, midnight 2023 3 31, midnight 2023 4 30])"
proof -
  have m: "max_date (midnight 2023 1 1) [midnight 2023 2 1] = midnight 2023 2 1"
    by (simp add: midnight_def dt_key_def)
  have r: "date_range (midnight 2023 2 1) (3 + 1)
      = [midnight 2023 2 28, midnight 2023 3 31, midnight 2023 4 30, midnight 2023 5 31]"
    by (simp add: date_range_def rollforward_def next_month_end_def
          days_in_month_def is_leap_def midnight_def month_ends_numeral)
  show ?thesis
    unfolding make_future_dataframe_eval m r by (simp add: midnight_def dt_key_def)
qed

lemma example_run:
  assumes "fit P example_series = Inr model"
  shows "forecast_inflation P example_series 3
           = Inr (map (forecast_of P model)
                   ([midnight 2023 1 1, midnight 2023 2 1]
                    @ [midnight 2023 2 28, midnight 2023 3 31, midnight 2023 4 30]))"
proof -
  have "None \<notin> set (map Date example_series)" by (simp add: example_series_def)
  then show ?thesis
    unfolding forecast_inflation_def example_history example_future using assms by simp
qed

lemma example_dates_valid: "\<forall>r\<in>set example_series. \<exists>t. Date r = Some t \<and> valid_date t"
  by (simp add: example_series_def valid_date_def midnight_def days_in_month_def)

lemma sample_fit: "fit sample_prophet example_series = Inr ()"
  by (simp add: sample_prophet_def example_series_def)

text \<open>
  C2 at the series of January and February 2023, the horizon 3 and the sample model: three
  rows, the first dated 28 February 2023.
\<close>

theorem forecast_table_covers_horizon_witness:
  "\<exists>forecast dates.
      forecast_inflation sample_prophet example_series 3 = Inr forecast
      \<and> rows (forecast_display forecast 3) = map (table_row sample_prophet ()) dates
      \<and> length dates = 3
      \<and> dates ! 0 = midnight 2023 2 28"
proof -
  have run: "forecast_inflation sample_prophet example_series 3 = Inr example_forecast"
    using example_run [OF sample_fit] by (simp add: example_forecast_def)
  from forecast_table_covers_horizon [OF run example_dates_valid]
  obtain model dates r where rws: "rows (forecast_display example_forecast 3)
        = map (table_row sample_prophet model) dates"
    and len: "length dates = 3" and r: "r \<in> set example_series"
    and ub: "\<forall>r'\<in>set example_series. dt_key (the (Date r')) \<le> dt_key (the (Date r))"
    and first: "dates ! 0 = first_month_end_after (the (Date r))"
    by auto
  have "the (Date r) = midnight 2023 2 1"
    using r ub by (auto simp: example_series_def midnight_def dt_key_def)
  then have "dates ! 0 = midnight 2023 2 28"
    using first
    by (simp add: first_month_end_after_def is_month_end_def rollforward_def days_in_month_def
          is_leap_def midnight_def)
  with run rws len show ?thesis by auto
qed




subsection \<open>The exported file\<close>

lemma comprehension_dates:
  "calendar_parser td \<Longrightarrow> comprehension td recs = Inr df \<Longrightarrow> r \<in> set df \<Longrightarrow>
     Date r = Some t \<Longrightarrow> valid_date t"
proof (induction recs arbitrary: df)
  case Nil
  then show ?case by simp
next
  case (Cons d recs)
  show ?case
  proof (cases "rec_value d = JNull")
    case True
    with Cons.prems(2) have "comprehension td recs = Inr df"
      by (simp add: rec_value_def split: sum.splits if_splits)
    from Cons.IH [OF Cons.prems(1) this Cons.prems(3,4)] show ?thesis .
  next
    case False
    with Cons.prems(2) obtain s t0 rs where "td s = Inr t0"
      and rs: "comprehension td recs = Inr rs"
      and df: "df = \<lparr>Date = t0, Inflation = rec_value d\<rparr> # rs"
      by (auto simp: rec_value_def split: sum.splits if_splits)
    show ?thesis
    proof (cases "r \<in> set rs")
      case True
      from Cons.IH [OF Cons.prems(1) rs True Cons.prems(4)] show ?thesis .
    next
      case False
      with df Cons.prems(3,4) have "t0 = Some t" by auto
      with \<open>td s = Inr t0\<close> Cons.prems(1) show ?thesis
        by (simp add: calendar_parser_def)
    qed
  qed
qed

lemma acquisition_dates:
  assumes "calendar_parser td" and "get_world_bank_inflation td resp = Inr df"
  shows "\<forall>r\<in>set df. \<forall>t. Date r = Some t \<longrightarrow> valid_date t"
proof -
  from assms(2) obtain recs df0 where c: "comprehension td recs = Inr df0"
    and s: "sort_values df0 = Inr df"
    by (auto simp: get_world_bank_inflation_def split: http_result.splits option.splits sum.splits)
  from sort_values_set [OF s] comprehension_dates [OF assms(1) c] show ?thesis by blast
qed

lemma days_in_month_pos: "1 \<le> days_in_month y m"
  by (simp add: days_in_month_def)

lemma augmentation_dates:
  assumes "valid_date now" and "\<forall>r\<in>set df. \<forall>t. Date r = Some t \<longrightarrow> valid_date t"
  shows "\<forall>r\<in>set (current_month_augmentation isin b v now df). \<forall>t. Date r = Some t \<longrightarrow> valid_date t"
proof -
  from assms(1) have "valid_date (now\<lparr>day := 1\<rparr>)"
    by (simp add: valid_date_def days_in_month_pos)
  with assms(2) show ?thesis
    by (auto simp: current_month_augmentation_def Let_def)
qed

lemma script_success:
  assumes "script td isin P fmt s = (page, None)"
  shows "\<exists>df forecast.
           get_world_bank_inflation td (response s) = Inr df
         \<and> forecast_inflation P
              (current_month_augmentation isin (checkbox s) (current_inflation s) (clock s) df)
              (forecast_period s) = Inr forecast
         \<and> forecast_table_of page = Some (forecast_display forecast (forecast_period s))
         \<and> download_of page
             = Some \<lparr>button_data = to_csv fmt (forecast_display forecast (forecast_period s)),
                     file_name = ''nigeria_inflation_forecast.csv'', mime = ''text/csv''\<rparr>"
  using assms by (auto simp: script_def Let_def split: sum.splits if_splits)

text \<open>
  C7. A run that ends without an exception, with a parser and a clock that give dates of
  the calendar, offers one download: the file \<^verbatim>\<open>nigeria_inflation_forecast.csv\<close> of
  type \<^verbatim>\<open>text/csv\<close>. Its header record is Date, Forecast, Lower Bound, Upper Bound, and
  it is followed by one record for each month of the horizon: the \<open>forecast_period\<close> month
  ends that follow the latest date of the series handed to Prophet, in consecutive months,
  each later than every date of that series. Each record holds the four cells of the row
  that the fitted model gives for its date, as \<^verbatim>\<open>to_csv\<close> writes them: no record has a
  field for the index. The displayed table holds the same rows.
\<close>

theorem download_is_forecast_csv:
  assumes run: "script td isin P fmt s = (page, None)"
      and parser: "calendar_parser td"
      and clk: "valid_date (clock s)"
  shows "\<exists>b model dates df r.
           get_world_bank_inflation td (response s) = Inr df
         \<and> fit P (current_month_augmentation isin (checkbox s) (current_inflation s) (clock s) df)
             = Inr model
         \<and> r \<in> set (current_month_augmentation isin (checkbox s) (current_inflation s) (clock s) df)
         \<and> (\<forall>r'\<in>set (current_month_augmentation isin (checkbox s) (current_inflation s) (clock s) df).
                dt_key (the (Date r')) \<le> dt_key (the (Date r)))
         \<and> dates = month_ends (first_month_end_after (the (Date r))) (forecast_period s)
         \<and> (0 < forecast_period s \<longrightarrow> dates ! 0 = first_month_end_after (the (Date r)))
         \<and> (\<forall>d\<in>set dates. is_month_end d
                \<and> (\<forall>r'\<in>set (current_month_augmentation isin (checkbox s) (current_inflation s)
                               (clock s) df).
                      dt_key (the (Date r')) < dt_key d))
         \<and> download_of page = Some b
         \<and> file_name b = ''nigeria_inflation_forecast.csv''
         \<and> mime b = ''text/csv''
         \<and> button_data b
             = [''Date'', ''Forecast'', ''Lower Bound'', ''Upper Bound'']
               # map (\<lambda>d. map fmt (table_row P model d)) dates
         \<and> length dates = forecast_period s
         \<and> (\<forall>i. Suc i < forecast_period s
                \<longrightarrow> month_index (dates ! Suc i) = month_index (dates ! i) + 1)
         \<and> (\<forall>rec\<in>set (button_data b). length rec = 4)
         \<and> forecast_table_of page
             = Some \<lparr>columns = [''Date'', ''Forecast'', ''Lower Bound'', ''Upper Bound''],
                     rows = map (table_row P model) dates\<rparr>"
proof -
  let ?n = "forecast_period s"
  from script_success [OF run]
  obtain df forecast where acq: "get_world_bank_inflation td (response s) = Inr df"
    and fc: "forecast_inflation P
              (current_month_augmentation isin (checkbox s) (current_inflation s) (clock s) df) ?n
              = Inr forecast"
    and tbl: "forecast_table_of page = Some (forecast_display forecast ?n)"
    and dl: "download_of page
             = Some \<lparr>button_data = to_csv fmt (forecast_display forecast ?n),
                     file_name = ''nigeria_inflation_forecast.csv'', mime = ''text/csv''\<rparr>"
    by blast
  let ?df = "current_month_augmentation isin (checkbox s) (current_inflation s) (clock s) df"
  let ?b = "\<lparr>button_data = to_csv fmt (forecast_display forecast ?n),
            file_name = ''nigeria_inflation_forecast.csv'', mime = ''text/csv''\<rparr>"
  have "\<forall>r\<in>set ?df. \<forall>t. Date r = Some t \<longrightarrow> valid_date t"
    by (rule augmentation_dates [OF clk acquisition_dates [OF parser acq]])
  with forecast_inflation_dated [OF fc]
  have dated: "\<forall>r\<in>set ?df. \<exists>t. Date r = Some t \<and> valid_date t" by fastforce
  from displayed_table [OF fc dated]
  obtain model and r :: obs where fit: "fit P ?df = Inr model" and r: "r \<in> set ?df"
    and v: "valid_date (the (Date r))"
    and ub: "\<forall>r'\<in>set ?df. dt_key (the (Date r')) \<le> dt_key (the (Date r))"
    and rws: "rows (forecast_display forecast ?n)
               = map (table_row P model) (month_ends (first_month_end_after (the (Date r))) ?n)"
    by blast
  let ?dates = "month_ends (first_month_end_after (the (Date r))) ?n"
  let ?header = "[''Date'', ''Forecast'', ''Lower Bound'', ''Upper Bound'']"
  have frame: "forecast_display forecast ?n = \<lparr>columns = ?header, rows = map (table_row P model) ?dates\<rparr>"
    using forecast_display_columns [of forecast ?n] rws by (cases "forecast_display forecast ?n") simp
  have csv: "button_data ?b = ?header # map (\<lambda>d. map fmt (table_row P model d)) ?dates"
    by (simp add: frame to_csv_def comp_def)
  have four: "\<forall>rec\<in>set (button_data ?b). length rec = 4"
    unfolding csv by (auto simp: table_row_def)
  have cons: "\<forall>i. Suc i < ?n \<longrightarrow> month_index (?dates ! Suc i) = month_index (?dates ! i) + 1"
    using month_ends_consecutive [OF v] by blast
  have first: "0 < ?n \<longrightarrow> ?dates ! 0 = first_month_end_after (the (Date r))"
    by (simp add: month_ends_first)
  have after: "\<forall>d\<in>set ?dates. is_month_end d \<and> (\<forall>r'\<in>set ?df. dt_key (the (Date r')) < dt_key d)"
  proof
    fix d assume "d \<in> set ?dates"
    from month_ends_after [OF v this] have "is_month_end d" and "dt_key (the (Date r)) < dt_key d"
      by blast+
    with ub show "is_month_end d \<and> (\<forall>r'\<in>set ?df. dt_key (the (Date r')) < dt_key d)"
      by (meson le_less_trans)
  qed
  have len: "length ?dates = ?n" by (rule length_month_ends)
  have nm: "file_name ?b = ''nigeria_inflation_forecast.csv''" "mime ?b = ''text/csv''" by simp_all
  have tbl': "forecast_table_of page = Some \<lparr>columns = ?header, rows = map (table_row P model) ?dates\<rparr>"
    using tbl frame by simp
  from acq fit r ub first after dl nm csv len cons four tbl'
  show ?thesis
    by (intro exI [of _ ?b] exI [of _ model] exI [of _ ?dates] exI [of _ df] exI [of _ r]
          conjI refl)
qed

lemma two_year_history: "history_dates two_year_series = [midnight 2022 1 1, midnight 2023 1 1]"
  by (simp add: history_dates_def two_year_series_def midnight_def dt_key_def)

lemma two_year_future:
  "make_future_dataframe [midnight 2022 1 1, midnight 2023 1 1] 3
     = Inr ([midnight 2022 1 1, midnight 2023 1 1]
            @ [midnight 2023 1 31, midnight 2023 2 28, midnight 2023 3 31])"
proof -
  have m: "max_date (midnight 2022 1 1) [midnight 2023 1 1] = midnight 2023 1 1"
    by (simp add: midnight_def dt_key_def)
  have r: "date_range (midnight 2023 1 1) (3 + 1)
      = [midnight 2023 1 31, midnight 2023 2 28, midnight 2023 3 31, midnight 2023 4 30]"
    by (simp add: date_range_def rollforward_def next_month_end_def
          days_in_month_def is_leap_def midnight_def month_ends_numeral)
  show ?thesis
    unfolding make_future_dataframe_eval m r by (simp add: midnight_def dt_key_def)
qed

lemma sample_run: "snd (script sample_to_datetime never_equal sample_prophet sample_fmt sample_session) = None"
proof -
  have a: "get_world_bank_inflation sample_to_datetime (response sample_session) = Inr two_year_series"
    by (simp add: sample_session_def two_year_run)
  have cb: "checkbox sample_session = False" by (simp add: sample_session_def)
  have b: "current_month_augmentation c False x y two_year_series = two_year_series" for c x y
    by (simp add: current_month_augmentation_def)
  have nn: "None \<notin> set (map Date two_year_series)" by (simp add: two_year_series_def)
  have f: "fit sample_prophet two_year_series = Inr ()"
    by (simp add: sample_prophet_def two_year_series_def)
  have p: "forecast_period sample_session = 3" by (simp add: sample_session_def)
  have c: "\<exists>forecast. forecast_inflation sample_prophet two_year_series 3 = Inr forecast"
    unfolding forecast_inflation_def two_year_history two_year_future using nn f by simp
  then obtain forecast where "forecast_inflation sample_prophet two_year_series 3 = Inr forecast"
    by blast
  then show ?thesis
    by (simp add: script_def a Let_def cb b p)
qed

lemma sample_parser_calendar: "calendar_parser sample_to_datetime"
  by (auto simp: calendar_parser_def sample_to_datetime_def valid_date_def midnight_def
        days_in_month_def split: json.splits if_splits)

text \<open>The statement at the sample session: a header and three records, of four fields each.\<close>

theorem download_is_forecast_csv_witness:
  "\<exists>page b. script sample_to_datetime never_equal sample_prophet sample_fmt sample_session = (page, None)
     \<and> download_of page = Some b
     \<and> file_name b = ''nigeria_inflation_forecast.csv''
     \<and> mime b = ''text/csv''
     \<and> hd (button_data b) = [''Date'', ''Forecast'', ''Lower Bound'', ''Upper Bound'']
     \<and> length (button_data b) = 4"
proof -
  obtain page where run: "script sample_to_datetime never_equal sample_prophet sample_fmt sample_session = (page, None)"
    using sample_run by (cases "script sample_to_datetime never_equal sample_prophet sample_fmt sample_session") simp
  have clk: "valid_date (clock sample_session)"
    by (simp add: sample_session_def at_time_def valid_date_def days_in_month_def)
  from download_is_forecast_csv [OF run sample_parser_calendar clk]
  obtain b model dates where "download_of page = Some b"
    "file_name b = ''nigeria_inflation_forecast.csv''" "mime b = ''text/csv''"
    "button_data b = [''Date'', ''Forecast'', ''Lower Bound'', ''Upper Bound'']
               # map (\<lambda>d. map sample_fmt (table_row sample_prophet model d)) dates"
    "length dates = forecast_period sample_session"
    by blast
  moreover have "forecast_period sample_session = 3" by (simp add: sample_session_def)
  ultimately show ?thesis using run by auto
qed

end
